theory Spec2Isabelle
  imports Main
begin

section \<open>Errors\<close>

text \<open>
  Every way a request can fail is a value. \<open>HTTPException status detail\<close> is FastAPI's
  exception, raised by the route handlers. The next three are the Python and SQLAlchemy
  exceptions that the handlers do not catch, which the framework answers with status 500:
  \<open>AttributeError\<close> for an attribute read on \<open>None\<close>, \<open>MultipleResultsFound\<close> for
  \<open>scalar_one_or_none\<close> on more than one row, \<open>IntegrityError\<close> for a commit that
  violates a \<open>UNIQUE\<close> or \<open>NOT NULL\<close> constraint. \<open>RequestValidationError\<close> is
  FastAPI's answer (status 422) to a path or query parameter outside its declared bounds.
\<close>

datatype error =
    HTTPException nat string
  | AttributeError
  | MultipleResultsFound
  | IntegrityError
  | RequestValidationError

fun status_code :: "error \<Rightarrow> nat" where
  "status_code (HTTPException s d) = s"
| "status_code AttributeError = 500"
| "status_code MultipleResultsFound = 500"
| "status_code IntegrityError = 500"
| "status_code RequestValidationError = 422"

section \<open>Token service and credential hasher (src/services/auth.py)\<close>

text \<open>
  Modelled from the spec: \<open>src/services/auth.py\<close> is not among the sources. The spec
  (sections 3 and 4.2) describes a token as signed, expiring claims: the subject (the
  user's email), the time of issue, the expiry, and a scope that tells access, refresh
  and email-confirmation tokens apart. A token string either verifies under the server's
  key, and then it is determined by its claims (\<open>Signed\<close>), or it does not
  (\<open>Unverifiable\<close>). The clock reading \<open>now\<close> of a request is an explicit argument.
\<close>

datatype scope = Access | Refresh | Email

record claims =
  sub :: string
  iat :: nat
  exp :: nat
  scope :: scope

datatype token = Signed claims | Unverifiable string

text \<open>
  The hasher and the token lifetimes come from the configuration, which is not among the
  sources either: they are parameters, the fields of the \<open>auth_service\<close> object that
  the routes call.
\<close>

record auth_service =
  get_password_hash :: "string \<Rightarrow> string"
  verify_password :: "string \<Rightarrow> string \<Rightarrow> bool"
  access_lifetime :: nat
  refresh_lifetime :: nat
  email_lifetime :: nat

definition create_access_token :: "auth_service \<Rightarrow> nat \<Rightarrow> string \<Rightarrow> token" where
  "create_access_token svc now subject =
     Signed \<lparr>sub = subject, iat = now, exp = now + access_lifetime svc, scope = Access\<rparr>"

definition create_refresh_token :: "auth_service \<Rightarrow> nat \<Rightarrow> string \<Rightarrow> token" where
  "create_refresh_token svc now subject =
     Signed \<lparr>sub = subject, iat = now, exp = now + refresh_lifetime svc, scope = Refresh\<rparr>"

definition create_email_token :: "auth_service \<Rightarrow> nat \<Rightarrow> string \<Rightarrow> token" where
  "create_email_token svc now subject =
     Signed \<lparr>sub = subject, iat = now, exp = now + email_lifetime svc, scope = Email\<rparr>"

text \<open>
  Modelled from the spec: decoding verifies signature and expiry (a token is expired
  once the clock has reached its expiry) and, for a refresh token, the scope; any
  failure is an "unauthorized" error, for an email token a "bad request / verification
  error". The detail texts of these two errors are the spec's words.
\<close>

definition decode_refresh_token :: "nat \<Rightarrow> token \<Rightarrow> error + string" where
  "decode_refresh_token now t =
     (case t of
        Unverifiable s \<Rightarrow> Inl (HTTPException 401 ''unauthorized'')
      | Signed c \<Rightarrow>
          if exp c \<le> now then Inl (HTTPException 401 ''unauthorized'')
          else if scope c = Refresh then Inr (sub c)
          else Inl (HTTPException 401 ''unauthorized''))"

definition get_email_from_token :: "nat \<Rightarrow> token \<Rightarrow> error + string" where
  "get_email_from_token now t =
     (case t of
        Unverifiable s \<Rightarrow> Inl (HTTPException 400 ''verification error'')
      | Signed c \<Rightarrow>
          if exp c \<le> now then Inl (HTTPException 400 ''verification error'')
          else Inr (sub c))"

section \<open>Data model (src/database/models.py)\<close>

text \<open>
  A table is the list of its rows, in the order the database returns them. The primary
  key of \<open>users\<close> is \<open>uid\<close> (the column \<open>id\<close>) and that of \<open>contacts\<close> is \<open>cid\<close>;
  \<open>user_id\<close> is the nullable foreign key of a contact, \<open>contact_email\<close> its
  \<open>email\<close> column. The columns \<open>created_at\<close> and \<open>updated_at\<close> are assigned by the
  database server and read by no operation below; they are left out. A new user row
  gets \<open>confirmed = False\<close> by the column default and only \<open>True\<close> is ever written
  to it, so the nullable column is a \<open>bool\<close>. The length limits of the string columns
  are not modelled.
\<close>

record date =
  year :: nat
  month :: nat
  day :: nat

record user =
  uid :: int
  username :: string
  email :: string
  password :: string
  avatar :: "string option"
  refresh_token :: "token option"
  confirmed :: bool

record contact =
  cid :: int
  firstname :: string
  surname :: string
  contact_email :: string
  phone :: string
  birthday :: date
  details :: "string option"
  user_id :: "int option"

record db =
  users :: "user list"
  contacts :: "contact list"

text \<open>\<open>Result.scalar_one_or_none()\<close> of SQLAlchemy.\<close>

fun scalar_one_or_none :: "'a list \<Rightarrow> error + 'a option" where
  "scalar_one_or_none [] = Inr None"
| "scalar_one_or_none [x] = Inr (Some x)"
| "scalar_one_or_none (x # y # zs) = Inl MultipleResultsFound"

section \<open>User repository (src/repository/users.py)\<close>

definition get_user_by_email :: "string \<Rightarrow> db \<Rightarrow> error + user option" where
  "get_user_by_email e d = scalar_one_or_none (filter (\<lambda>u. email u = e) (users d))"

text \<open>
  The request body of signup, \<open>UserSchema\<close>. Modelled from the spec:
  \<open>src/schemas/user.py\<close> is not among the sources; the route reads the fields
  \<open>email\<close> and \<open>password\<close> of the body and \<open>username\<close> of the row made from it.
\<close>

record user_schema =
  schema_username :: string
  schema_email :: string
  schema_password :: string

text \<open>
  \<open>create_user\<close>: \<open>gravatar\<close> is the avatar lookup of \<open>libgravatar\<close>, \<open>None\<close> where
  it raises. \<open>new_id\<close> is the primary key that the database assigns to the new row:
  the next value of its autoincrement, whatever the backend makes it, a key that no row
  of the table has. The commit fails on the \<open>UNIQUE\<close> constraint of \<open>users.email\<close>.
\<close>

definition create_user ::
  "(string \<Rightarrow> string option) \<Rightarrow> int \<Rightarrow> user_schema \<Rightarrow> db \<Rightarrow> error + (user \<times> db)" where
  "create_user gravatar new_id body d =
     (let new_user = \<lparr>uid = new_id,
                      username = schema_username body,
                      email = schema_email body,
                      password = schema_password body,
                      avatar = gravatar (schema_email body),
                      refresh_token = None,
                      confirmed = False\<rparr>
      in if schema_email body \<in> set (map email (users d)) then Inl IntegrityError
         else Inr (new_user, d\<lparr>users := users d @ [new_user]\<rparr>))"

text \<open>
  \<open>update_token\<close> assigns the attribute of the ORM object and commits: the row with the
  object's primary key gets the new value.
\<close>

definition update_token :: "user \<Rightarrow> token option \<Rightarrow> db \<Rightarrow> db" where
  "update_token usr tok d =
     d\<lparr>users := map (\<lambda>r. if uid r = uid usr then r\<lparr>refresh_token := tok\<rparr> else r) (users d)\<rparr>"

definition confirmed_email :: "string \<Rightarrow> db \<Rightarrow> error + db" where
  "confirmed_email e d =
     (case get_user_by_email e d of
        Inl err \<Rightarrow> Inl err
      | Inr None \<Rightarrow> Inl AttributeError
      | Inr (Some usr) \<Rightarrow>
          Inr (d\<lparr>users := map (\<lambda>r. if uid r = uid usr then r\<lparr>confirmed := True\<rparr> else r)
                              (users d)\<rparr>))"

section \<open>Authentication routes (src/routes/auth.py)\<close>

text \<open>
  A route returns its response or the error it raises, together with the database as the
  request leaves it: what was committed before a \<open>raise\<close> stays committed.
  \<open>send_email\<close> is queued as a background task; the queue is part of what signup and
  \<open>request_email\<close> return.
\<close>

datatype task = Send_email string string string

record token_schema =
  access_token :: token
  new_refresh_token :: token
  token_type :: string

definition signup ::
  "auth_service \<Rightarrow> string \<Rightarrow> (string \<Rightarrow> string option) \<Rightarrow> int \<Rightarrow> user_schema \<Rightarrow> task list \<Rightarrow>
   string \<Rightarrow> db \<Rightarrow> (error + user) \<times> task list \<times> db" where
  "signup svc ACCOUNT_EXIST gravatar new_id body bt base_url d =
     (case get_user_by_email (schema_email body) d of
        Inl err \<Rightarrow> (Inl err, bt, d)
      | Inr (Some exist_user) \<Rightarrow> (Inl (HTTPException 409 ACCOUNT_EXIST), bt, d)
      | Inr None \<Rightarrow>
          (let body' = body\<lparr>schema_password := get_password_hash svc (schema_password body)\<rparr>
           in case create_user gravatar new_id body' d of
                Inl err \<Rightarrow> (Inl err, bt, d)
              | Inr (new_user, d') \<Rightarrow>
                  (Inr new_user,
                   bt @ [Send_email (email new_user) (username new_user) base_url],
                   d')))"

definition login ::
  "auth_service \<Rightarrow> nat \<Rightarrow> string \<Rightarrow> string \<Rightarrow> db \<Rightarrow> (error + token_schema) \<times> db" where
  "login svc now form_username form_password d =
     (case get_user_by_email form_username d of
        Inl err \<Rightarrow> (Inl err, d)
      | Inr None \<Rightarrow> (Inl (HTTPException 401 ''Invalid email''), d)
      | Inr (Some usr) \<Rightarrow>
          if \<not> confirmed usr then (Inl (HTTPException 401 ''Email is not confirmed''), d)
          else if \<not> verify_password svc form_password (password usr)
          then (Inl (HTTPException 401 ''Invalid password''), d)
          else
            (let a = create_access_token svc now (email usr);
                 r = create_refresh_token svc now (email usr)
             in (Inr \<lparr>access_token = a, new_refresh_token = r, token_type = ''bearer''\<rparr>,
                 update_token usr (Some r) d)))"

definition refresh_token_route ::
  "auth_service \<Rightarrow> nat \<Rightarrow> token \<Rightarrow> db \<Rightarrow> (error + token_schema) \<times> db" where
  "refresh_token_route svc now tok d =
     (case decode_refresh_token now tok of
        Inl err \<Rightarrow> (Inl err, d)
      | Inr e \<Rightarrow>
          (case get_user_by_email e d of
             Inl err \<Rightarrow> (Inl err, d)
           | Inr None \<Rightarrow> (Inl AttributeError, d)
           | Inr (Some usr) \<Rightarrow>
               if refresh_token usr \<noteq> Some tok
               then (Inl (HTTPException 401 ''Invalid refresh token''), update_token usr None d)
               else
                 (let a = create_access_token svc now e;
                      r = create_refresh_token svc now e
                  in (Inr \<lparr>access_token = a, new_refresh_token = r, token_type = ''bearer''\<rparr>,
                      update_token usr (Some r) d))))"

definition confirmed_email_route :: "nat \<Rightarrow> token \<Rightarrow> db \<Rightarrow> (error + string) \<times> db" where
  "confirmed_email_route now tok d =
     (case get_email_from_token now tok of
        Inl err \<Rightarrow> (Inl err, d)
      | Inr e \<Rightarrow>
          (case get_user_by_email e d of
             Inl err \<Rightarrow> (Inl err, d)
           | Inr None \<Rightarrow> (Inl (HTTPException 400 ''Verification error''), d)
           | Inr (Some usr) \<Rightarrow>
               if confirmed usr then (Inr ''Your email is already confirmed'', d)
               else
                 (case confirmed_email e d of
                    Inl err \<Rightarrow> (Inl err, d)
                  | Inr d' \<Rightarrow> (Inr ''Email confirmed'', d'))))"

text \<open>
  \<open>request_email\<close> reads \<open>user.confirmed\<close> before it tests \<open>user\<close>: on \<open>None\<close> the
  read raises \<open>AttributeError\<close>. The test \<open>if user\<close> that follows is true of every
  row object.
\<close>

definition request_email ::
  "string \<Rightarrow> task list \<Rightarrow> string \<Rightarrow> db \<Rightarrow> (error + string) \<times> task list \<times> db" where
  "request_email body_email background_tasks base_url d =
     (case get_user_by_email body_email d of
        Inl err \<Rightarrow> (Inl err, background_tasks, d)
      | Inr None \<Rightarrow> (Inl AttributeError, background_tasks, d)
      | Inr (Some usr) \<Rightarrow>
          if confirmed usr then (Inr ''Your email is already confirmed'', background_tasks, d)
          else (Inr ''Check your email for confirmation.'',
                background_tasks @ [Send_email (email usr) (username usr) base_url],
                d))"

section \<open>Dates\<close>

text \<open>
  Python's \<open>datetime.date\<close> in the proleptic Gregorian calendar: the order of dates is
  the lexicographic order of year, month and day, and adding a \<open>timedelta\<close> of \<open>n\<close>
  days steps to the next calendar day \<open>n\<close> times. (The \<open>OverflowError\<close> past year
  9999 is out of reach of \<open>datetime.now()\<close>.)
\<close>

definition date_le :: "date \<Rightarrow> date \<Rightarrow> bool" where
  "date_le a b =
     (year a < year b \<or>
      (year a = year b \<and> (month a < month b \<or> (month a = month b \<and> day a \<le> day b))))"

definition is_leap :: "nat \<Rightarrow> bool" where
  "is_leap y = (y mod 4 = 0 \<and> (y mod 100 \<noteq> 0 \<or> y mod 400 = 0))"

definition days_in_month :: "nat \<Rightarrow> nat \<Rightarrow> nat" where
  "days_in_month y m =
     (if m = 2 then (if is_leap y then 29 else 28)
      else if m = 4 \<or> m = 6 \<or> m = 9 \<or> m = 11 then 30
      else 31)"

definition next_day :: "date \<Rightarrow> date" where
  "next_day d =
     (if day d < days_in_month (year d) (month d) then d\<lparr>day := day d + 1\<rparr>
      else if month d < 12 then d\<lparr>month := month d + 1, day := 1\<rparr>
      else \<lparr>year = year d + 1, month = 1, day = 1\<rparr>)"

fun add_days :: "date \<Rightarrow> nat \<Rightarrow> date" where
  "add_days d 0 = d"
| "add_days d (Suc n) = add_days (next_day d) n"

text \<open>
  What the two operations on dates are to compute. A date of \<open>datetime.date\<close> has a
  year from 1 on, a month from 1 to 12 and a day of that month. Its ordinal
  (\<open>date.toordinal\<close>) counts the days from 1 January of year 1, which has ordinal 1:
  the days before the year, by the Gregorian rule, the days before the month, by the
  table of the common year and one more after February of a leap year, and the day.
  Dates compare as their ordinals do, and a date plus \<open>n\<close> days is the date whose
  ordinal is \<open>n\<close> more.
\<close>

definition valid_date :: "date \<Rightarrow> bool" where
  "valid_date d =
     (1 \<le> year d \<and> 1 \<le> month d \<and> month d \<le> 12 \<and>
      1 \<le> day d \<and> day d \<le> days_in_month (year d) (month d))"

definition days_before_year :: "nat \<Rightarrow> int" where
  "days_before_year y =
     (let n = int y - 1 in n * 365 + n div 4 - n div 100 + n div 400)"

definition days_before_month :: "nat \<Rightarrow> nat \<Rightarrow> int" where
  "days_before_month y m =
     [0, 31, 59, 90, 120, 151, 181, 212, 243, 273, 304, 334] ! (m - 1) +
     (if 2 < m \<and> is_leap y then 1 else 0)"

definition toordinal :: "date \<Rightarrow> int" where
  "toordinal d = days_before_year (year d) + days_before_month (year d) (month d) + int (day d)"

section \<open>Contact repository (src/repository/contacts.py)\<close>

text \<open>
  \<open>filter_by(user=user)\<close> compares the foreign key of the contact with the primary key
  of the user; a contact without an owner matches no user.
\<close>

definition owned_by :: "user \<Rightarrow> contact \<Rightarrow> bool" where
  "owned_by usr c = (user_id c = Some (uid usr))"

definition get_contacts :: "nat \<Rightarrow> nat \<Rightarrow> db \<Rightarrow> user \<Rightarrow> contact list" where
  "get_contacts limit offset d usr = take limit (drop offset (filter (owned_by usr) (contacts d)))"

text \<open>\<open>ilike\<close> is the database's case-insensitive \<open>LIKE\<close>, a parameter: column value, pattern.\<close>

definition search_contacts ::
  "(string \<Rightarrow> string \<Rightarrow> bool) \<Rightarrow> string \<Rightarrow> db \<Rightarrow> user \<Rightarrow> contact list" where
  "search_contacts ilike query d usr =
     filter (\<lambda>c. ilike (firstname c) query \<or> ilike (surname c) query \<or> ilike (contact_email c) query)
            (filter (owned_by usr) (contacts d))"

definition get_contact :: "int \<Rightarrow> db \<Rightarrow> user \<Rightarrow> error + contact option" where
  "get_contact contact_id d usr =
     scalar_one_or_none (filter (\<lambda>c. cid c = contact_id \<and> owned_by usr c) (contacts d))"

text \<open>The request bodies \<open>ContactSchema\<close> and \<open>ContactUpdateSchema\<close> (src/schemas/contact.py).\<close>

record contact_schema =
  body_firstname :: string
  body_surname :: string
  body_email :: string
  body_phone :: string
  body_birthday :: date
  body_details :: "string option"

record contact_update_schema =
  upd_firstname :: "string option"
  upd_surname :: "string option"
  upd_email :: "string option"
  upd_phone :: "string option"
  upd_birthday :: date
  upd_details :: "string option"

text \<open>\<open>new_id\<close> is the primary key that the database assigns to the new contact.\<close>

definition create_contact :: "int \<Rightarrow> contact_schema \<Rightarrow> db \<Rightarrow> user \<Rightarrow> contact \<times> db" where
  "create_contact new_id body d usr =
     (let c = \<lparr>cid = new_id,
               firstname = body_firstname body,
               surname = body_surname body,
               contact_email = body_email body,
               phone = body_phone body,
               birthday = body_birthday body,
               details = body_details body,
               user_id = Some (uid usr)\<rparr>
      in (c, d\<lparr>contacts := contacts d @ [c]\<rparr>))"

text \<open>
  \<open>update_contact\<close> assigns every column from the body and commits. The update schema
  lets \<open>firstname\<close>, \<open>surname\<close>, \<open>email\<close> and \<open>phone\<close> be \<open>None\<close>, the columns are
  \<open>NOT NULL\<close>: the commit of a \<open>None\<close> raises \<open>IntegrityError\<close> and writes nothing.
\<close>

definition update_contact ::
  "int \<Rightarrow> contact_update_schema \<Rightarrow> db \<Rightarrow> user \<Rightarrow> (error + contact option) \<times> db" where
  "update_contact contact_id body d usr =
     (case scalar_one_or_none (filter (\<lambda>c. cid c = contact_id \<and> owned_by usr c) (contacts d)) of
        Inl err \<Rightarrow> (Inl err, d)
      | Inr None \<Rightarrow> (Inr None, d)
      | Inr (Some c) \<Rightarrow>
          (case (upd_firstname body, upd_surname body, upd_email body, upd_phone body) of
             (Some f, Some s, Some e, Some p) \<Rightarrow>
               (let c' = c\<lparr>firstname := f, surname := s, contact_email := e, phone := p,
                           birthday := upd_birthday body, details := upd_details body\<rparr>
                in (Inr (Some c'),
                    d\<lparr>contacts := map (\<lambda>r. if cid r = cid c then c' else r) (contacts d)\<rparr>))
           | _ \<Rightarrow> (Inl IntegrityError, d)))"

definition delete_contact :: "int \<Rightarrow> db \<Rightarrow> user \<Rightarrow> (error + contact option) \<times> db" where
  "delete_contact contact_id d usr =
     (case scalar_one_or_none (filter (\<lambda>c. cid c = contact_id \<and> owned_by usr c) (contacts d)) of
        Inl err \<Rightarrow> (Inl err, d)
      | Inr None \<Rightarrow> (Inr None, d)
      | Inr (Some c) \<Rightarrow> (Inr (Some c), d\<lparr>contacts := filter (\<lambda>r. cid r \<noteq> cid c) (contacts d)\<rparr>))"

text \<open>\<open>today\<close> is \<open>datetime.now().date()\<close>.\<close>

definition get_upcoming_birthdays :: "date \<Rightarrow> db \<Rightarrow> user \<Rightarrow> contact list" where
  "get_upcoming_birthdays today d usr =
     (let week_from_today = add_days today 7
      in filter (\<lambda>c. date_le today (birthday c) \<and> date_le (birthday c) week_from_today)
                (filter (owned_by usr) (contacts d)))"

section \<open>Contact routes (src/routes/contacts.py)\<close>

text \<open>
  \<open>usr\<close> is the row that \<open>auth_service.get_current_user\<close> resolved from the access
  token. The declared bounds of the path and query parameters are checked before the
  handler runs.
\<close>

definition get_upcoming_birthdays_route :: "date \<Rightarrow> db \<Rightarrow> user \<Rightarrow> contact list" where
  "get_upcoming_birthdays_route today d usr = get_upcoming_birthdays today d usr"

definition get_contacts_route :: "int \<Rightarrow> int \<Rightarrow> db \<Rightarrow> user \<Rightarrow> error + contact list" where
  "get_contacts_route limit offset d usr =
     (if limit < 1 \<or> 500 < limit \<or> offset < 0 then Inl RequestValidationError
      else Inr (get_contacts (nat limit) (nat offset) d usr))"

definition get_contact_route :: "int \<Rightarrow> db \<Rightarrow> user \<Rightarrow> error + contact" where
  "get_contact_route contact_id d usr =
     (case get_contact contact_id d usr of
        Inl err \<Rightarrow> Inl err
      | Inr None \<Rightarrow> Inl (HTTPException 404 ''NOT FOUND'')
      | Inr (Some c) \<Rightarrow> Inr c)"

definition search_contacts_route ::
  "(string \<Rightarrow> string \<Rightarrow> bool) \<Rightarrow> string \<Rightarrow> db \<Rightarrow> user \<Rightarrow> contact list" where
  "search_contacts_route ilike query d usr = search_contacts ilike query d usr"

definition create_contact_route ::
  "int \<Rightarrow> contact_schema \<Rightarrow> db \<Rightarrow> user \<Rightarrow> contact \<times> db" where
  "create_contact_route new_id body d usr = create_contact new_id body d usr"

definition update_contact_route ::
  "contact_update_schema \<Rightarrow> int \<Rightarrow> db \<Rightarrow> user \<Rightarrow> (error + contact) \<times> db" where
  "update_contact_route body contact_id d usr =
     (if contact_id < 1 then (Inl RequestValidationError, d)
      else
        (case update_contact contact_id body d usr of
           (Inl err, d') \<Rightarrow> (Inl err, d')
         | (Inr None, d') \<Rightarrow> (Inl (HTTPException 404 ''NOT FOUND''), d')
         | (Inr (Some c), d') \<Rightarrow> (Inr c, d')))"

text \<open>
  The delete handler returns what the repository returned, \<open>None\<close> included, under the
  declared status 204.
\<close>

definition delete_contact_route :: "int \<Rightarrow> db \<Rightarrow> user \<Rightarrow> (error + contact option) \<times> db" where
  "delete_contact_route contact_id d usr =
     (if contact_id < 1 then (Inl RequestValidationError, d)
      else delete_contact contact_id d usr)"

section \<open>A sample deployment\<close>

text \<open>
  Concrete values on which the theorems below are instantiated: a hasher that tags the
  plaintext, lifetimes of 15 minutes, 7 days and 1 day in seconds, two users (Alice is
  confirmed, Bob is not) and three contacts, two of Alice and one of Bob.
\<close>

definition sample_service :: auth_service where
  "sample_service =
     \<lparr>get_password_hash = (\<lambda>p. ''hashed:'' @ p),
      verify_password = (\<lambda>p h. h = ''hashed:'' @ p),
      access_lifetime = 900,
      refresh_lifetime = 604800,
      email_lifetime = 86400\<rparr>"

definition sample_gravatar :: "string \<Rightarrow> string option" where
  "sample_gravatar e = Some (''https://www.gravatar.com/avatar/'' @ e)"

definition alice :: user where
  "alice = \<lparr>uid = 1, username = ''alice'', email = ''alice@example.com'',
            password = ''hashed:pw123'', avatar = None, refresh_token = None,
            confirmed = True\<rparr>"

definition bob :: user where
  "bob = \<lparr>uid = 2, username = ''bob'', email = ''bob@example.com'',
          password = ''hashed:hunter2'', avatar = None, refresh_token = None,
          confirmed = False\<rparr>"

definition sample_contacts :: "contact list" where
  "sample_contacts =
     [\<lparr>cid = 1, firstname = ''Carol'', surname = ''Jones'', contact_email = ''carol@example.com'',
       phone = ''555-0101'', birthday = \<lparr>year = 2026, month = 11, day = 6\<rparr>,
       details = None, user_id = Some 1\<rparr>,
      \<lparr>cid = 2, firstname = ''Dave'', surname = ''Smith'', contact_email = ''dave@example.com'',
       phone = ''555-0102'', birthday = \<lparr>year = 1990, month = 11, day = 6\<rparr>,
       details = Some ''colleague'', user_id = Some 2\<rparr>,
      \<lparr>cid = 3, firstname = ''Erin'', surname = ''Brown'', contact_email = ''erin@example.com'',
       phone = ''555-0103'', birthday = \<lparr>year = 1985, month = 11, day = 5\<rparr>,
       details = None, user_id = Some 1\<rparr>]"

definition sample_db :: db where
  "sample_db = \<lparr>users = [alice, bob], contacts = sample_contacts\<rparr>"

text \<open>
  Alice's session: the refresh token that a login at clock reading 1000 issues to her,
  and the database that holds it. \<open>stale_refresh\<close> is a refresh token of hers from an
  earlier login, not yet expired.
\<close>

definition sample_access :: token where
  "sample_access = create_access_token sample_service 1000 ''alice@example.com''"

definition sample_refresh :: token where
  "sample_refresh = create_refresh_token sample_service 1000 ''alice@example.com''"

definition stale_refresh :: token where
  "stale_refresh = create_refresh_token sample_service 500 ''alice@example.com''"

definition alice_session :: user where
  "alice_session = alice\<lparr>refresh_token := Some sample_refresh\<rparr>"

definition session_db :: db where
  "session_db = \<lparr>users = [alice_session, bob], contacts = sample_contacts\<rparr>"

text \<open>The token pair of a refresh at clock reading 2000, and the database after it.\<close>

definition rotated_pair :: token_schema where
  "rotated_pair =
     \<lparr>access_token = create_access_token sample_service 2000 ''alice@example.com'',
      new_refresh_token = create_refresh_token sample_service 2000 ''alice@example.com'',
      token_type = ''bearer''\<rparr>"

definition rotated_db :: db where
  "rotated_db =
     \<lparr>users = [alice\<lparr>refresh_token := Some (new_refresh_token rotated_pair)\<rparr>, bob],
      contacts = sample_contacts\<rparr>"

text \<open>A confirmation token for Bob, and the signup of a new user Carol.\<close>

definition bob_email_token :: token where
  "bob_email_token = create_email_token sample_service 1000 ''bob@example.com''"

definition carol_signup :: user_schema where
  "carol_signup =
     \<lparr>schema_username = ''carol'', schema_email = ''carol@example.com'',
      schema_password = ''s3cret''\<rparr>"

definition carol_row :: user where
  "carol_row =
     \<lparr>uid = 3, username = ''carol'', email = ''carol@example.com'',
      password = ''hashed:s3cret'',
      avatar = Some ''https://www.gravatar.com/avatar/carol@example.com'',
      refresh_token = None, confirmed = False\<rparr>"

text \<open>
  Contacts for the birthday query. Of Alice's, four have their birthday in November
  2026, on the 3rd, 4th, 11th and 12th, one was born on 5 November 1985, one has it on
  5 December 2026 and one on 4 January 2027; one contact with a birthday on 5 November
  2026 is Bob's.
\<close>

definition birthday_contacts :: "contact list" where
  "birthday_contacts =
     [\<lparr>cid = 11, firstname = ''Ann'', surname = ''Early'', contact_email = ''ann@example.com'',
       phone = ''555-0111'', birthday = \<lparr>year = 2026, month = 11, day = 3\<rparr>,
       details = None, user_id = Some 1\<rparr>,
      \<lparr>cid = 12, firstname = ''Ben'', surname = ''Today'', contact_email = ''ben@example.com'',
       phone = ''555-0112'', birthday = \<lparr>year = 2026, month = 11, day = 4\<rparr>,
       details = None, user_id = Some 1\<rparr>,
      \<lparr>cid = 13, firstname = ''Cat'', surname = ''Week'', contact_email = ''cat@example.com'',
       phone = ''555-0113'', birthday = \<lparr>year = 2026, month = 11, day = 11\<rparr>,
       details = None, user_id = Some 1\<rparr>,
      \<lparr>cid = 14, firstname = ''Dan'', surname = ''Late'', contact_email = ''dan@example.com'',
       phone = ''555-0114'', birthday = \<lparr>year = 2026, month = 11, day = 12\<rparr>,
       details = None, user_id = Some 1\<rparr>,
      \<lparr>cid = 15, firstname = ''Eve'', surname = ''Born'', contact_email = ''eve@example.com'',
       phone = ''555-0115'', birthday = \<lparr>year = 1985, month = 11, day = 5\<rparr>,
       details = None, user_id = Some 1\<rparr>,
      \<lparr>cid = 16, firstname = ''Fay'', surname = ''Other'', contact_email = ''fay@example.com'',
       phone = ''555-0116'', birthday = \<lparr>year = 2026, month = 11, day = 5\<rparr>,
       details = None, user_id = Some 2\<rparr>,
      \<lparr>cid = 17, firstname = ''Gus'', surname = ''Month'', contact_email = ''gus@example.com'',
       phone = ''555-0117'', birthday = \<lparr>year = 2026, month = 12, day = 5\<rparr>,
       details = None, user_id = Some 1\<rparr>,
      \<lparr>cid = 18, firstname = ''Hal'', surname = ''Year'', contact_email = ''hal@example.com'',
       phone = ''555-0118'', birthday = \<lparr>year = 2027, month = 1, day = 4\<rparr>,
       details = None, user_id = Some 1\<rparr>]"

definition birthday_db :: db where
  "birthday_db = \<lparr>users = [alice, bob], contacts = birthday_contacts\<rparr>"

lemmas sample_defs =
  sample_service_def sample_gravatar_def alice_def bob_def sample_contacts_def sample_db_def
  sample_access_def sample_refresh_def stale_refresh_def alice_session_def
  session_db_def rotated_pair_def rotated_db_def bob_email_token_def carol_signup_def
  carol_row_def

lemmas token_defs =
  create_access_token_def create_refresh_token_def create_email_token_def
  decode_refresh_token_def get_email_from_token_def

section \<open>Lookups by a unique key\<close>

lemma scalar_Some_iff: "scalar_one_or_none xs = Inr (Some x) \<longleftrightarrow> xs = [x]"
  by (cases xs rule: scalar_one_or_none.cases) auto

lemma scalar_None_iff: "scalar_one_or_none xs = Inr None \<longleftrightarrow> xs = []"
  by (cases xs rule: scalar_one_or_none.cases) auto

lemma filter_unique_key:
  "distinct (map f xs) \<Longrightarrow> x \<in> set xs \<Longrightarrow> filter (\<lambda>y. f y = f x) xs = [x]"
proof (induction xs)
  case Nil
  then show ?case by simp
next
  case (Cons a xs)
  show ?case
  proof (cases "a = x")
    case True
    with Cons.prems have "filter (\<lambda>y. f y = f x) xs = []"
      by (force simp: filter_empty_conv image_iff)
    with True show ?thesis by simp
  next
    case False
    with Cons.prems have "x \<in> set xs" and "f a \<noteq> f x"
      by (auto simp: image_iff)
    with Cons show ?thesis by simp
  qed
qed

lemma get_user_by_email_absent:
  "e \<notin> set (map email (users d)) \<Longrightarrow> get_user_by_email e d = Inr None"
proof -
  assume "e \<notin> set (map email (users d))"
  then have "filter (\<lambda>u. email u = e) (users d) = []"
    by (auto simp: filter_empty_conv)
  then show ?thesis
    by (simp add: get_user_by_email_def)
qed

lemma get_user_by_email_present:
  "distinct (map email (users d)) \<Longrightarrow> usr \<in> set (users d) \<Longrightarrow>
   get_user_by_email (email usr) d = Inr (Some usr)"
  by (simp add: get_user_by_email_def filter_unique_key)

lemma get_user_by_email_mem:
  "get_user_by_email e d = Inr (Some usr) \<Longrightarrow> usr \<in> set (users d) \<and> email usr = e"
proof -
  assume "get_user_by_email e d = Inr (Some usr)"
  then have "filter (\<lambda>u. email u = e) (users d) = [usr]"
    by (simp add: get_user_by_email_def scalar_Some_iff)
  then have "usr \<in> set (filter (\<lambda>u. email u = e) (users d))" by simp
  then show ?thesis by simp
qed

text \<open>
  A write to the row of \<open>usr\<close> that keeps the email: the lookup by that email finds the
  written row.
\<close>

lemma get_user_by_email_write:
  assumes "get_user_by_email e d = Inr (Some usr)"
    and "\<And>r. email (g r) = email r"
  shows "get_user_by_email e (d\<lparr>users := map (\<lambda>r. if uid r = uid usr then g r else r) (users d)\<rparr>) =
         Inr (Some (g usr))"
proof -
  let ?f = "\<lambda>r. if uid r = uid usr then g r else r"
  have keep: "(\<lambda>u. email u = e) \<circ> ?f = (\<lambda>u. email u = e)"
    by (rule ext) (simp add: assms(2))
  from assms(1) have one: "filter (\<lambda>u. email u = e) (users d) = [usr]"
    by (simp add: get_user_by_email_def scalar_Some_iff)
  have "filter (\<lambda>u. email u = e) (map ?f (users d)) = map ?f (filter (\<lambda>u. email u = e) (users d))"
    by (simp only: filter_map keep)
  with one show ?thesis
    by (simp add: get_user_by_email_def)
qed

lemma get_user_by_email_update_token:
  assumes "get_user_by_email e d = Inr (Some usr)"
  shows "get_user_by_email e (update_token usr t d) = Inr (Some (usr\<lparr>refresh_token := t\<rparr>))"
  unfolding update_token_def
  using assms by (rule get_user_by_email_write) simp

section \<open>Refresh-token rotation\<close>






text \<open>
  C2. A presented refresh token that decodes to a user whose stored refresh token is not
  the presented one: the route raises 401 "Invalid refresh token", no token pair is
  returned, and the database it leaves is the one in which \<open>update_token\<close> has set the
  user's stored token to \<open>None\<close>.
\<close>

theorem refresh_mismatch_clears:
  assumes "decode_refresh_token now tok = Inr e"
    and "get_user_by_email e d = Inr (Some usr)"
    and "refresh_token usr \<noteq> Some tok"
  shows "refresh_token_route svc now tok d =
           (Inl (HTTPException 401 ''Invalid refresh token''), update_token usr None d) \<and>
         get_user_by_email e (update_token usr None d) = Inr (Some (usr\<lparr>refresh_token := None\<rparr>))"
  using assms by (simp add: refresh_token_route_def get_user_by_email_update_token)

theorem refresh_mismatch_clears_witness:
  "decode_refresh_token 2000 stale_refresh = Inr ''alice@example.com'' \<and>
   get_user_by_email ''alice@example.com'' session_db = Inr (Some alice_session) \<and>
   refresh_token alice_session \<noteq> Some stale_refresh \<and>
   refresh_token_route sample_service 2000 stale_refresh session_db =
     (Inl (HTTPException 401 ''Invalid refresh token''), update_token alice_session None session_db) \<and>
   get_user_by_email ''alice@example.com'' (update_token alice_session None session_db) =
     Inr (Some (alice_session\<lparr>refresh_token := None\<rparr>))"
proof -
  have h1: "decode_refresh_token 2000 stale_refresh = Inr ''alice@example.com''"
    by (simp add: token_defs sample_defs)
  have h2: "get_user_by_email ''alice@example.com'' session_db = Inr (Some alice_session)"
    by (simp add: get_user_by_email_def sample_defs)
  have h3: "refresh_token alice_session \<noteq> Some stale_refresh"
    by (simp add: token_defs sample_defs)
  from refresh_mismatch_clears [OF h1 h2 h3, of sample_service] h1 h2 h3 show ?thesis by simp
qed

section \<open>Login\<close>

lemma login_absent:
  "get_user_by_email e d = Inr None \<Longrightarrow>
   login svc now e pw d = (Inl (HTTPException 401 ''Invalid email''), d)"
  by (simp add: login_def)

lemma login_present:
  "get_user_by_email e d = Inr (Some usr) \<Longrightarrow>
   login svc now e pw d =
     (if \<not> confirmed usr then (Inl (HTTPException 401 ''Email is not confirmed''), d)
      else if \<not> verify_password svc pw (password usr)
      then (Inl (HTTPException 401 ''Invalid password''), d)
      else (Inr \<lparr>access_token = create_access_token svc now (email usr),
                 new_refresh_token = create_refresh_token svc now (email usr),
                 token_type = ''bearer''\<rparr>,
            update_token usr (Some (create_refresh_token svc now (email usr))) d))"
  by (simp add: login_def Let_def)

text \<open>
  C3, as the code has it. In a users table with unique emails, login fails exactly when
  no user has the email, or the user with the email is unconfirmed, or the password
  does not verify against that user's stored hash. Every failure has status 401, and
  its detail tells the cause: "Invalid email", "Email is not confirmed" or "Invalid
  password".
\<close>

theorem login_failure_causes:
  assumes "distinct (map email (users d))"
  shows "((\<exists>err. fst (login svc now e pw d) = Inl err) \<longleftrightarrow>
            (e \<notin> set (map email (users d)) \<or>
             (\<exists>usr \<in> set (users d). email usr = e \<and>
                 (\<not> confirmed usr \<or> \<not> verify_password svc pw (password usr))))) \<and>
         (\<forall>err. fst (login svc now e pw d) = Inl err \<longrightarrow>
            status_code err = 401 \<and>
            (err = HTTPException 401 ''Invalid email'' \<and> e \<notin> set (map email (users d)) \<or>
             (\<exists>usr \<in> set (users d). email usr = e \<and>
                 (if \<not> confirmed usr then err = HTTPException 401 ''Email is not confirmed''
                  else err = HTTPException 401 ''Invalid password'' \<and>
                       \<not> verify_password svc pw (password usr)))))"
proof (cases "e \<in> set (map email (users d))")
  case False
  then have "get_user_by_email e d = Inr None"
    by (rule get_user_by_email_absent)
  then have "login svc now e pw d = (Inl (HTTPException 401 ''Invalid email''), d)"
    by (rule login_absent)
  with False show ?thesis by simp
next
  case True
  then obtain usr where mem: "usr \<in> set (users d)" and e: "email usr = e"
    by auto
  with assms have found: "get_user_by_email e d = Inr (Some usr)"
    using get_user_by_email_present by blast
  have uniq: "u = usr" if "u \<in> set (users d)" "email u = e" for u
    using that assms mem e by (auto simp: distinct_map dest: inj_onD)
  note val = login_present [OF found, of svc now pw]
  consider (unconfirmed) "\<not> confirmed usr"
    | (badpw) "confirmed usr" "\<not> verify_password svc pw (password usr)"
    | (ok) "confirmed usr" "verify_password svc pw (password usr)"
    by blast
  then show ?thesis
  proof cases
    case unconfirmed
    with val have "fst (login svc now e pw d) = Inl (HTTPException 401 ''Email is not confirmed'')"
      by simp
    with unconfirmed mem e show ?thesis by auto
  next
    case badpw
    with val have "fst (login svc now e pw d) = Inl (HTTPException 401 ''Invalid password'')"
      by simp
    with badpw mem e show ?thesis by auto
  next
    case ok
    with val have "\<exists>r. fst (login svc now e pw d) = Inr r"
      by simp
    moreover have "\<not> (\<exists>u \<in> set (users d). email u = e \<and>
        (\<not> confirmed u \<or> \<not> verify_password svc pw (password u)))"
      using uniq ok by blast
    ultimately show ?thesis using True by auto
  qed
qed

text \<open>The theorem at the sample users: Bob, unconfirmed, is refused with his own password.\<close>

theorem login_failure_causes_witness:
  "distinct (map email (users sample_db)) \<and>
   bob \<in> set (users sample_db) \<and> \<not> confirmed bob \<and>
   (\<exists>err. fst (login sample_service 1000 ''bob@example.com'' ''hunter2'' sample_db) = Inl err \<and>
          status_code err = 401)"
proof -
  have h: "distinct (map email (users sample_db))"
    by (simp add: sample_defs)
  have b: "bob \<in> set (users sample_db)" "\<not> confirmed bob" "email bob = ''bob@example.com''"
    by (simp_all add: sample_defs)
  from login_failure_causes [OF h, of sample_service 1000 "''bob@example.com''" "''hunter2''"] b
  have "\<exists>err. fst (login sample_service 1000 ''bob@example.com'' ''hunter2'' sample_db) = Inl err \<and>
          status_code err = 401"
    by blast
  with h b show ?thesis by simp
qed

text \<open>
  C3 as stated fails in its last part: the three failures are told apart by the detail
  of the response. An unknown email, an unconfirmed user and a wrong password get three
  different answers.
\<close>

theorem login_failure_causes_counterexample:
  "fst (login sample_service 1000 ''nobody@example.com'' ''pw123'' sample_db) =
     Inl (HTTPException 401 ''Invalid email'') \<and>
   fst (login sample_service 1000 ''bob@example.com'' ''hunter2'' sample_db) =
     Inl (HTTPException 401 ''Email is not confirmed'') \<and>
   fst (login sample_service 1000 ''alice@example.com'' ''wrong'' sample_db) =
     Inl (HTTPException 401 ''Invalid password'') \<and>
   fst (login sample_service 1000 ''nobody@example.com'' ''pw123'' sample_db) \<noteq>
   fst (login sample_service 1000 ''alice@example.com'' ''wrong'' sample_db)"
  by (simp add: login_def get_user_by_email_def sample_defs)

text \<open>
  C4. A login that fails, for whatever cause, leaves the database as it was: no stored
  refresh token is rotated, set or cleared.
\<close>

theorem login_failure_keeps_db:
  "fst (login svc now un pw d) = Inl err \<Longrightarrow> snd (login svc now un pw d) = d"
  by (auto simp: login_def Let_def split: sum.splits option.splits if_splits)

theorem login_failure_keeps_db_witness:
  "fst (login sample_service 1000 ''alice@example.com'' ''wrong'' session_db) =
     Inl (HTTPException 401 ''Invalid password'') \<and>
   snd (login sample_service 1000 ''alice@example.com'' ''wrong'' session_db) = session_db"
proof -
  have h: "fst (login sample_service 1000 ''alice@example.com'' ''wrong'' session_db) =
     Inl (HTTPException 401 ''Invalid password'')"
    by (simp add: login_def get_user_by_email_def sample_defs)
  from login_failure_keeps_db [OF h] h show ?thesis by simp
qed

section \<open>Email confirmation\<close>

lemma confirmed_email_found:
  assumes "get_user_by_email e d = Inr (Some usr)"
  shows "\<exists>d1. confirmed_email e d = Inr d1 \<and>
           get_user_by_email e d1 = Inr (Some (usr\<lparr>confirmed := True\<rparr>)) \<and>
           contacts d1 = contacts d"
proof -
  let ?d1 = "d\<lparr>users := map (\<lambda>r. if uid r = uid usr then r\<lparr>confirmed := True\<rparr> else r) (users d)\<rparr>"
  from assms have "confirmed_email e d = Inr ?d1"
    by (simp add: confirmed_email_def)
  moreover from assms have "get_user_by_email e ?d1 = Inr (Some (usr\<lparr>confirmed := True\<rparr>))"
    by (rule get_user_by_email_write) simp
  ultimately show ?thesis by simp
qed

text \<open>
  C5. With a valid confirmation token for an existing, unconfirmed user, the first call
  answers "Email confirmed" and leaves the user confirmed; a second call with any valid
  token for the same user answers "Your email is already confirmed", raises nothing and
  leaves the database as the first call left it.
\<close>

theorem confirm_idempotent:
  assumes "get_email_from_token now tok = Inr e"
    and "get_user_by_email e d = Inr (Some usr)"
    and "\<not> confirmed usr"
    and "get_email_from_token now' tok' = Inr e"
  shows "\<exists>d1. confirmed_email_route now tok d = (Inr ''Email confirmed'', d1) \<and>
           get_user_by_email e d1 = Inr (Some (usr\<lparr>confirmed := True\<rparr>)) \<and>
           confirmed_email_route now' tok' d1 = (Inr ''Your email is already confirmed'', d1)"
proof -
  from assms(2) obtain d1 where c: "confirmed_email e d = Inr d1"
    and g: "get_user_by_email e d1 = Inr (Some (usr\<lparr>confirmed := True\<rparr>))"
    using confirmed_email_found by blast
  from assms(1-3) c have first: "confirmed_email_route now tok d = (Inr ''Email confirmed'', d1)"
    by (simp add: confirmed_email_route_def)
  from assms(4) g have second:
    "confirmed_email_route now' tok' d1 = (Inr ''Your email is already confirmed'', d1)"
    by (simp add: confirmed_email_route_def)
  from first g second show ?thesis by blast
qed

text \<open>The theorem at Bob, with one confirmation token used twice.\<close>

theorem confirm_idempotent_witness:
  "get_email_from_token 2000 bob_email_token = Inr ''bob@example.com'' \<and>
   get_user_by_email ''bob@example.com'' sample_db = Inr (Some bob) \<and>
   \<not> confirmed bob \<and>
   (\<exists>d1. confirmed_email_route 2000 bob_email_token sample_db = (Inr ''Email confirmed'', d1) \<and>
         get_user_by_email ''bob@example.com'' d1 = Inr (Some (bob\<lparr>confirmed := True\<rparr>)) \<and>
         confirmed_email_route 3000 bob_email_token d1 =
           (Inr ''Your email is already confirmed'', d1))"
proof -
  have h1: "get_email_from_token 2000 bob_email_token = Inr ''bob@example.com''"
    by (simp add: token_defs sample_defs)
  have h2: "get_user_by_email ''bob@example.com'' sample_db = Inr (Some bob)"
    by (simp add: get_user_by_email_def sample_defs)
  have h3: "\<not> confirmed bob"
    by (simp add: sample_defs)
  have h4: "get_email_from_token 3000 bob_email_token = Inr ''bob@example.com''"
    by (simp add: token_defs sample_defs)
  from confirm_idempotent [OF h1 h2 h3 h4] h1 h2 h3 show ?thesis by simp
qed

text \<open>
  C6 fails on the code. \<open>request_email\<close> for an email that no user has: the handler
  reads \<open>confirmed\<close> of \<open>None\<close> and raises \<open>AttributeError\<close>, which the framework
  answers with status 500, where the claim has status 200 and "Check your email for
  confirmation.".
\<close>

theorem request_email_absent_user:
  "get_user_by_email ''nobody@example.com'' sample_db = Inr None \<and>
   request_email ''nobody@example.com'' [] ''http://testserver/'' sample_db =
     (Inl AttributeError, [], sample_db) \<and>
   status_code AttributeError = 500"
  by (simp add: request_email_def get_user_by_email_def sample_defs)

section \<open>Signup\<close>

lemma create_user_fresh:
  "schema_email body \<notin> set (map email (users d)) \<Longrightarrow>
   create_user gravatar new_id body d =
     Inr (\<lparr>uid = new_id, username = schema_username body,
           email = schema_email body, password = schema_password body,
           avatar = gravatar (schema_email body), refresh_token = None, confirmed = False\<rparr>,
          d\<lparr>users := users d @
             [\<lparr>uid = new_id, username = schema_username body,
               email = schema_email body, password = schema_password body,
               avatar = gravatar (schema_email body), refresh_token = None,
               confirmed = False\<rparr>]\<rparr>)"
  by (simp add: create_user_def Let_def)

text \<open>
  C7. In a users table with unique emails, signup raises 409 exactly when a user with
  the email of the body exists. Otherwise it returns the new row, whose password is the
  hash of the body's password, appends that row to the users table and queues one
  \<open>send_email\<close> task for the new user's email and username.
\<close>

theorem signup_conflict_iff:
  assumes "distinct (map email (users d))"
  shows "(fst (signup svc ACCOUNT_EXIST gravatar new_id body bt base_url d) =
            Inl (HTTPException 409 ACCOUNT_EXIST) \<longleftrightarrow>
          schema_email body \<in> set (map email (users d))) \<and>
         (schema_email body \<notin> set (map email (users d)) \<longrightarrow>
          signup svc ACCOUNT_EXIST gravatar new_id body bt base_url d =
            (Inr \<lparr>uid = new_id, username = schema_username body,
                  email = schema_email body,
                  password = get_password_hash svc (schema_password body),
                  avatar = gravatar (schema_email body), refresh_token = None,
                  confirmed = False\<rparr>,
             bt @ [Send_email (schema_email body) (schema_username body) base_url],
             d\<lparr>users := users d @
                [\<lparr>uid = new_id, username = schema_username body,
                  email = schema_email body,
                  password = get_password_hash svc (schema_password body),
                  avatar = gravatar (schema_email body), refresh_token = None,
                  confirmed = False\<rparr>]\<rparr>))"
proof (cases "schema_email body \<in> set (map email (users d))")
  case True
  then obtain usr where "usr \<in> set (users d)" and "email usr = schema_email body"
    by auto
  with assms have "get_user_by_email (schema_email body) d = Inr (Some usr)"
    using get_user_by_email_present by metis
  then have "fst (signup svc ACCOUNT_EXIST gravatar new_id body bt base_url d) =
            Inl (HTTPException 409 ACCOUNT_EXIST)"
    by (simp add: signup_def)
  with True show ?thesis by simp
next
  case False
  then have none: "get_user_by_email (schema_email body) d = Inr None"
    by (rule get_user_by_email_absent)
  let ?body' = "body\<lparr>schema_password := get_password_hash svc (schema_password body)\<rparr>"
  from False have "schema_email ?body' \<notin> set (map email (users d))" by simp
  note cu = create_user_fresh [OF this, of gravatar new_id]
  from none cu have val: "signup svc ACCOUNT_EXIST gravatar new_id body bt base_url d =
            (Inr \<lparr>uid = new_id, username = schema_username body,
                  email = schema_email body,
                  password = get_password_hash svc (schema_password body),
                  avatar = gravatar (schema_email body), refresh_token = None,
                  confirmed = False\<rparr>,
             bt @ [Send_email (schema_email body) (schema_username body) base_url],
             d\<lparr>users := users d @
                [\<lparr>uid = new_id, username = schema_username body,
                  email = schema_email body,
                  password = get_password_hash svc (schema_password body),
                  avatar = gravatar (schema_email body), refresh_token = None,
                  confirmed = False\<rparr>]\<rparr>)"
    by (simp add: signup_def Let_def)
  then have "fst (signup svc ACCOUNT_EXIST gravatar new_id body bt base_url d) \<noteq>
            Inl (HTTPException 409 ACCOUNT_EXIST)"
    by simp
  with False val show ?thesis by simp
qed

text \<open>The theorem at the sample users, for a new user Carol.\<close>

theorem signup_conflict_iff_witness:
  "distinct (map email (users sample_db)) \<and>
   schema_email carol_signup \<notin> set (map email (users sample_db)) \<and>
   signup sample_service ''Account already exists'' sample_gravatar 3 carol_signup []
       ''http://testserver/'' sample_db =
     (Inr carol_row, [Send_email ''carol@example.com'' ''carol'' ''http://testserver/''],
      \<lparr>users = [alice, bob, carol_row], contacts = sample_contacts\<rparr>)"
proof -
  have h: "distinct (map email (users sample_db))"
    by (simp add: sample_defs)
  have n: "schema_email carol_signup \<notin> set (map email (users sample_db))"
    by (simp add: sample_defs)
  from signup_conflict_iff [OF h, of sample_service "''Account already exists''" sample_gravatar
      3 carol_signup "[]" "''http://testserver/''"] n
  have "signup sample_service ''Account already exists'' sample_gravatar 3 carol_signup []
       ''http://testserver/'' sample_db =
     (Inr carol_row, [Send_email ''carol@example.com'' ''carol'' ''http://testserver/''],
      \<lparr>users = [alice, bob, carol_row], contacts = sample_contacts\<rparr>)"
    by (simp add: sample_defs)
  with h n show ?thesis by simp
qed

section \<open>Contacts are scoped by their owner\<close>

lemma filter_map_untouched:
  "(\<And>r. r \<in> set xs \<Longrightarrow> f r = r \<or> (\<not> P r \<and> \<not> P (f r))) \<Longrightarrow>
   filter P (map f xs) = filter P xs"
proof (induction xs)
  case Nil
  then show ?case by simp
next
  case (Cons a xs)
  have "f a = a \<or> (\<not> P a \<and> \<not> P (f a))"
    using Cons.prems by simp
  moreover have "filter P (map f xs) = filter P xs"
    using Cons by simp
  ultimately show ?case by auto
qed

lemma filter_filter_untouched:
  "(\<And>r. r \<in> set xs \<Longrightarrow> P r \<Longrightarrow> Q r) \<Longrightarrow> filter P (filter Q xs) = filter P xs"
  by (induction xs) auto

lemma same_cid_same_row:
  "distinct (map cid xs) \<Longrightarrow> c \<in> set xs \<Longrightarrow> r \<in> set xs \<Longrightarrow> cid r = cid c \<Longrightarrow> r = c"
  by (auto simp: distinct_map dest: inj_onD)

lemma found_contact_owned:
  assumes "scalar_one_or_none (filter (\<lambda>c. cid c = k \<and> owned_by usr c) xs) = Inr (Some c)"
  shows "c \<in> set xs \<and> cid c = k \<and> owned_by usr c"
proof -
  from assms have "filter (\<lambda>c. cid c = k \<and> owned_by usr c) xs = [c]"
    by (simp add: scalar_Some_iff)
  then have "c \<in> set (filter (\<lambda>c. cid c = k \<and> owned_by usr c) xs)" by simp
  then show ?thesis by simp
qed

lemma get_contacts_scoped:
  "c \<in> set (get_contacts limit offset d usr) \<Longrightarrow> c \<in> set (contacts d) \<and> owned_by usr c"
proof -
  assume "c \<in> set (get_contacts limit offset d usr)"
  then have "c \<in> set (filter (owned_by usr) (contacts d))"
    unfolding get_contacts_def by (blast dest: in_set_takeD in_set_dropD)
  then show ?thesis by simp
qed

lemma search_contacts_scoped:
  "c \<in> set (search_contacts ilike query d usr) \<Longrightarrow> c \<in> set (contacts d) \<and> owned_by usr c"
  by (simp add: search_contacts_def)

lemma get_upcoming_birthdays_scoped:
  "c \<in> set (get_upcoming_birthdays today d usr) \<Longrightarrow> c \<in> set (contacts d) \<and> owned_by usr c"
  by (simp add: get_upcoming_birthdays_def Let_def)

lemma get_contact_scoped:
  "get_contact contact_id d usr = Inr (Some c) \<Longrightarrow> c \<in> set (contacts d) \<and> owned_by usr c"
  unfolding get_contact_def by (drule found_contact_owned) simp

lemma create_contact_scoped:
  "owned_by usr (fst (create_contact new_id body d usr)) \<and>
   contacts (snd (create_contact new_id body d usr)) = contacts d @ [fst (create_contact new_id body d usr)]"
  by (simp add: create_contact_def Let_def owned_by_def)

lemma update_contact_returns_owned:
  assumes "fst (update_contact contact_id body d usr) = Inr (Some c)"
  shows "owned_by usr c"
proof -
  from assms obtain c0 f s e p where
    found: "scalar_one_or_none (filter (\<lambda>c. cid c = contact_id \<and> owned_by usr c) (contacts d)) =
            Inr (Some c0)"
    and c: "c = c0\<lparr>firstname := f, surname := s, contact_email := e, phone := p,
                   birthday := upd_birthday body, details := upd_details body\<rparr>"
    by (auto simp: update_contact_def Let_def split: sum.splits option.splits)
  from found have "owned_by usr c0"
    using found_contact_owned by blast
  with c show ?thesis
    by (simp add: owned_by_def)
qed

lemma update_contact_frame:
  assumes "distinct (map cid (contacts d))"
  shows "filter (\<lambda>c. \<not> owned_by usr c) (contacts (snd (update_contact contact_id body d usr))) =
         filter (\<lambda>c. \<not> owned_by usr c) (contacts d)"
proof (cases "scalar_one_or_none (filter (\<lambda>c. cid c = contact_id \<and> owned_by usr c) (contacts d))")
  case (Inl err)
  then show ?thesis by (simp add: update_contact_def)
next
  case (Inr found)
  show ?thesis
  proof (cases found)
    case None
    with Inr show ?thesis by (simp add: update_contact_def)
  next
    case (Some c)
    with Inr have c: "c \<in> set (contacts d)" "owned_by usr c"
      using found_contact_owned by blast+
    have frame: "filter (\<lambda>c. \<not> owned_by usr c) (map (\<lambda>r. if cid r = cid c then c' else r) (contacts d)) =
                 filter (\<lambda>c. \<not> owned_by usr c) (contacts d)" if "owned_by usr c'" for c'
    proof (rule filter_map_untouched)
      fix r assume "r \<in> set (contacts d)"
      with assms c that
      show "(if cid r = cid c then c' else r) = r \<or>
            (\<not> \<not> owned_by usr r \<and> \<not> \<not> owned_by usr (if cid r = cid c then c' else r))"
        by (auto dest: same_cid_same_row)
    qed
    from c(2) have keep: "owned_by usr (c\<lparr>firstname := f, surname := s, contact_email := e,
        phone := p, birthday := b, details := t\<rparr>)" for f s e p b t
      by (simp add: owned_by_def)
    from Inr Some show ?thesis
      by (simp add: update_contact_def Let_def frame keep split: option.splits)
  qed
qed

lemma delete_contact_returns_owned:
  "fst (delete_contact contact_id d usr) = Inr (Some c) \<Longrightarrow> c \<in> set (contacts d) \<and> owned_by usr c"
  by (auto simp: delete_contact_def split: sum.splits option.splits dest!: found_contact_owned)

lemma delete_contact_frame:
  assumes "distinct (map cid (contacts d))"
  shows "filter (\<lambda>c. \<not> owned_by usr c) (contacts (snd (delete_contact contact_id d usr))) =
         filter (\<lambda>c. \<not> owned_by usr c) (contacts d)"
proof (cases "scalar_one_or_none (filter (\<lambda>c. cid c = contact_id \<and> owned_by usr c) (contacts d))")
  case (Inl err)
  then show ?thesis by (simp add: delete_contact_def)
next
  case (Inr found)
  show ?thesis
  proof (cases found)
    case None
    with Inr show ?thesis by (simp add: delete_contact_def)
  next
    case (Some c)
    with Inr have c: "c \<in> set (contacts d)" "owned_by usr c"
      using found_contact_owned by blast+
    have "filter (\<lambda>c. \<not> owned_by usr c) (filter (\<lambda>r. cid r \<noteq> cid c) (contacts d)) =
          filter (\<lambda>c. \<not> owned_by usr c) (contacts d)"
    proof (rule filter_filter_untouched)
      fix r assume "r \<in> set (contacts d)" "\<not> owned_by usr r"
      with assms c show "cid r \<noteq> cid c"
        by (auto dest: same_cid_same_row)
    qed
    with Inr Some show ?thesis
      by (simp add: delete_contact_def)
  qed
qed

text \<open>
  C8. Every operation of the contact repository, called for a user, returns only rows
  of \<open>contacts\<close> that the user owns, and writes only such rows: the listing, the
  search, the upcoming birthdays and the lookup by id return owned rows of the table;
  a created contact is owned by the user and is appended, the rows already there stay;
  update and delete return an owned contact, and the contacts that the user does not
  own are, after either, exactly those before. The primary key \<open>cid\<close> is unique in
  the table.
\<close>

theorem contacts_scoped_by_owner:
  assumes "distinct (map cid (contacts d))"
  shows "(\<forall>c \<in> set (get_contacts limit offset d usr). c \<in> set (contacts d) \<and> owned_by usr c) \<and>
         (\<forall>c \<in> set (search_contacts ilike query d usr). c \<in> set (contacts d) \<and> owned_by usr c) \<and>
         (\<forall>c \<in> set (get_upcoming_birthdays today d usr). c \<in> set (contacts d) \<and> owned_by usr c) \<and>
         (\<forall>c. get_contact contact_id d usr = Inr (Some c) \<longrightarrow>
              c \<in> set (contacts d) \<and> owned_by usr c) \<and>
         owned_by usr (fst (create_contact new_id body d usr)) \<and>
         contacts (snd (create_contact new_id body d usr)) =
           contacts d @ [fst (create_contact new_id body d usr)] \<and>
         (\<forall>c. fst (update_contact contact_id ubody d usr) = Inr (Some c) \<longrightarrow> owned_by usr c) \<and>
         filter (\<lambda>c. \<not> owned_by usr c) (contacts (snd (update_contact contact_id ubody d usr))) =
           filter (\<lambda>c. \<not> owned_by usr c) (contacts d) \<and>
         (\<forall>c. fst (delete_contact contact_id d usr) = Inr (Some c) \<longrightarrow>
              c \<in> set (contacts d) \<and> owned_by usr c) \<and>
         filter (\<lambda>c. \<not> owned_by usr c) (contacts (snd (delete_contact contact_id d usr))) =
           filter (\<lambda>c. \<not> owned_by usr c) (contacts d)"
proof -
  have c1: "\<forall>c \<in> set (get_contacts limit offset d usr). c \<in> set (contacts d) \<and> owned_by usr c"
    using get_contacts_scoped by blast
  have c2: "\<forall>c \<in> set (search_contacts ilike query d usr). c \<in> set (contacts d) \<and> owned_by usr c"
    using search_contacts_scoped by blast
  have c3: "\<forall>c \<in> set (get_upcoming_birthdays today d usr). c \<in> set (contacts d) \<and> owned_by usr c"
    using get_upcoming_birthdays_scoped by blast
  have c4: "\<forall>c. get_contact contact_id d usr = Inr (Some c) \<longrightarrow>
              c \<in> set (contacts d) \<and> owned_by usr c"
    using get_contact_scoped by blast
  have c5: "owned_by usr (fst (create_contact new_id body d usr))"
    using create_contact_scoped by blast
  have c6: "contacts (snd (create_contact new_id body d usr)) =
           contacts d @ [fst (create_contact new_id body d usr)]"
    using create_contact_scoped by blast
  have c7: "\<forall>c. fst (update_contact contact_id ubody d usr) = Inr (Some c) \<longrightarrow> owned_by usr c"
    using update_contact_returns_owned by blast
  have c8: "filter (\<lambda>c. \<not> owned_by usr c) (contacts (snd (update_contact contact_id ubody d usr))) =
           filter (\<lambda>c. \<not> owned_by usr c) (contacts d)"
    using assms by (rule update_contact_frame)
  have c9: "\<forall>c. fst (delete_contact contact_id d usr) = Inr (Some c) \<longrightarrow>
              c \<in> set (contacts d) \<and> owned_by usr c"
    using delete_contact_returns_owned by blast
  have c10: "filter (\<lambda>c. \<not> owned_by usr c) (contacts (snd (delete_contact contact_id d usr))) =
           filter (\<lambda>c. \<not> owned_by usr c) (contacts d)"
    using assms by (rule delete_contact_frame)
  show ?thesis
    by (intro conjI c1 c2 c3 c4 c5 c6 c7 c8 c9 c10)
qed

text \<open>
  The theorem at the sample contacts: Alice lists her two contacts, and neither her
  attempt to delete Bob's contact 2 nor the deletion of her own contact 1 touches the
  contact of Bob.
\<close>

theorem contacts_scoped_by_owner_witness:
  "distinct (map cid (contacts sample_db)) \<and>
   get_contacts 10 0 sample_db alice = [sample_contacts ! 0, sample_contacts ! 2] \<and>
   owned_by alice (sample_contacts ! 0) \<and> owned_by alice (sample_contacts ! 2) \<and>
   \<not> owned_by alice (sample_contacts ! 1) \<and>
   filter (\<lambda>c. \<not> owned_by alice c) (contacts (snd (delete_contact 2 sample_db alice))) =
     [sample_contacts ! 1] \<and>
   filter (\<lambda>c. \<not> owned_by alice c) (contacts (snd (delete_contact 1 sample_db alice))) =
     [sample_contacts ! 1]"
proof -
  have h: "distinct (map cid (contacts sample_db))"
    by (simp add: sample_defs)
  have l: "get_contacts 10 0 sample_db alice = [sample_contacts ! 0, sample_contacts ! 2]"
    by (simp add: get_contacts_def owned_by_def sample_defs)
  have o: "filter (\<lambda>c. \<not> owned_by alice c) (contacts sample_db) = [sample_contacts ! 1]"
    by (simp add: owned_by_def sample_defs)
  have other: "\<not> owned_by alice (sample_contacts ! 1)"
    by (simp add: owned_by_def sample_defs)
  note t2 = contacts_scoped_by_owner [OF h, where usr = alice and limit = 10 and offset = 0
      and contact_id = 2]
  note t1 = contacts_scoped_by_owner [OF h, where usr = alice and limit = 10 and offset = 0
      and contact_id = 1]
  from t2 have "\<forall>c \<in> set (get_contacts 10 0 sample_db alice). owned_by alice c"
    by blast
  with l have own: "owned_by alice (sample_contacts ! 0)" "owned_by alice (sample_contacts ! 2)"
    by simp_all
  from t2 have "filter (\<lambda>c. \<not> owned_by alice c) (contacts (snd (delete_contact 2 sample_db alice))) =
     filter (\<lambda>c. \<not> owned_by alice c) (contacts sample_db)"
    by blast
  with o have d2: "filter (\<lambda>c. \<not> owned_by alice c) (contacts (snd (delete_contact 2 sample_db alice))) =
     [sample_contacts ! 1]"
    by simp
  from t1 have "filter (\<lambda>c. \<not> owned_by alice c) (contacts (snd (delete_contact 1 sample_db alice))) =
     filter (\<lambda>c. \<not> owned_by alice c) (contacts sample_db)"
    by blast
  with o have d1: "filter (\<lambda>c. \<not> owned_by alice c) (contacts (snd (delete_contact 1 sample_db alice))) =
     [sample_contacts ! 1]"
    by simp
  from h l own other d2 d1 show ?thesis by (intro conjI)
qed

text \<open>
  C9 fails on the code in its second half. Alice asks to delete contact 2, which is
  Bob's: the repository returns \<open>None\<close> and raises nothing, as claimed, and the
  route hands that \<open>None\<close> on as its successful answer where the claim has a 404.
  The sibling route \<open>get_contact\<close> answers the same request with 404 "NOT FOUND".
\<close>

theorem delete_contact_route_absent:
  "delete_contact 2 sample_db alice = (Inr None, sample_db) \<and>
   delete_contact_route 2 sample_db alice = (Inr None, sample_db) \<and>
   get_contact_route 2 sample_db alice = Inl (HTTPException 404 ''NOT FOUND'')"
  by (simp add: delete_contact_route_def delete_contact_def get_contact_route_def get_contact_def
      owned_by_def sample_defs)

section \<open>Upcoming birthdays\<close>

text \<open>
  The length of a year and of a month in ordinals: the days before the next year are
  365 or 366 more, the days before the next month are the days of the month more.
\<close>

lemma int_div_Suc:
  "int (Suc k) div int c = int k div int c + (if Suc k mod c = 0 then 1 else 0)"
proof -
  have "int (Suc k) div int c = int (Suc k div c)"
    by (simp only: zdiv_int)
  also have "\<dots> = int (k div c) + (if Suc k mod c = 0 then 1 else 0)"
    by (simp add: div_Suc)
  finally show ?thesis
    by (simp only: zdiv_int)
qed

lemma mod_100_4: "(n::nat) mod 100 = 0 \<Longrightarrow> n mod 4 = 0"
proof -
  assume "n mod 100 = 0"
  then have "100 dvd n" by (simp add: mod_eq_0_iff_dvd)
  moreover have "(4::nat) dvd 100" by simp
  ultimately have "4 dvd n" by (rule dvd_trans [rotated])
  then show ?thesis by (simp add: mod_eq_0_iff_dvd)
qed

lemma mod_400_100: "(n::nat) mod 400 = 0 \<Longrightarrow> n mod 100 = 0"
proof -
  assume "n mod 400 = 0"
  then have "400 dvd n" by (simp add: mod_eq_0_iff_dvd)
  moreover have "(100::nat) dvd 400" by simp
  ultimately have "100 dvd n" by (rule dvd_trans [rotated])
  then show ?thesis by (simp add: mod_eq_0_iff_dvd)
qed

lemma days_before_year_Suc:
  "days_before_year (Suc k) = int k * 365 + int k div 4 - int k div 100 + int k div 400"
  by (simp add: days_before_year_def Let_def)

lemma year_length:
  assumes "1 \<le> y"
  shows "days_before_year (Suc y) = days_before_year y + 365 + (if is_leap y then 1 else 0)"
proof -
  from assms obtain k where y: "y = Suc k"
    by (cases y) auto
  have d4: "int (Suc k) div 4 = int k div 4 + (if Suc k mod 4 = 0 then 1 else 0)"
    using int_div_Suc [of k 4] by simp
  have d100: "int (Suc k) div 100 = int k div 100 + (if Suc k mod 100 = 0 then 1 else 0)"
    using int_div_Suc [of k 100] by simp
  have d400: "int (Suc k) div 400 = int k div 400 + (if Suc k mod 400 = 0 then 1 else 0)"
    using int_div_Suc [of k 400] by simp
  have step: "days_before_year (Suc (Suc k)) =
      days_before_year (Suc k) + 365 + (if Suc k mod 4 = 0 then 1 else 0)
        - (if Suc k mod 100 = 0 then 1 else 0) + (if Suc k mod 400 = 0 then 1 else 0)"
    unfolding days_before_year_Suc d4 d100 d400 by simp
  show ?thesis
  proof (cases "Suc k mod 400 = 0")
    case True
    then have "Suc k mod 100 = 0" by (rule mod_400_100)
    moreover from this have "Suc k mod 4 = 0" by (rule mod_100_4)
    ultimately show ?thesis
      using True step y by (simp add: is_leap_def)
  next
    case n400: False
    show ?thesis
    proof (cases "Suc k mod 100 = 0")
      case True
      then have "Suc k mod 4 = 0" by (rule mod_100_4)
      with True n400 step y show ?thesis
        by (simp add: is_leap_def)
    next
      case False
      with n400 step y show ?thesis
        by (simp add: is_leap_def)
    qed
  qed
qed

lemma month_length:
  assumes "1 \<le> m" and "m \<le> 11"
  shows "days_before_month y (Suc m) = days_before_month y m + int (days_in_month y m)"
proof -
  from assms have "m = 1 \<or> m = 2 \<or> m = 3 \<or> m = 4 \<or> m = 5 \<or> m = 6 \<or> m = 7 \<or> m = 8 \<or>
      m = 9 \<or> m = 10 \<or> m = 11"
    by arith
  then show ?thesis
    by (elim disjE) (simp_all add: days_before_month_def days_in_month_def)
qed

lemma december_length:
  "days_before_month y 12 + 31 = 365 + (if is_leap y then 1 else 0)"
  by (simp add: days_before_month_def)

lemma days_before_january: "days_before_month y (Suc 0) = 0"
  by (simp add: days_before_month_def)

text \<open>
  The next day of a date has the next ordinal, so the date that \<open>add_days\<close> computes
  is the one \<open>n\<close> days later.
\<close>

lemma next_day_ordinal:
  assumes "valid_date d"
  shows "toordinal (next_day d) = toordinal d + 1 \<and> valid_date (next_day d)"
proof -
  from assms have v: "1 \<le> year d" "1 \<le> month d" "month d \<le> 12" "1 \<le> day d"
    "day d \<le> days_in_month (year d) (month d)"
    by (simp_all add: valid_date_def)
  consider (same_month) "day d < days_in_month (year d) (month d)"
    | (next_month) "day d = days_in_month (year d) (month d)" "month d \<le> 11"
    | (next_year) "day d = days_in_month (year d) (month d)" "month d = 12"
    using v by linarith
  then show ?thesis
  proof cases
    case same_month
    with v show ?thesis
      by (simp add: next_day_def toordinal_def valid_date_def)
  next
    case next_month
    have pos: "1 \<le> days_in_month (year d) (Suc (month d))"
      by (simp add: days_in_month_def)
    from next_month v have "next_day d = d\<lparr>month := Suc (month d), day := 1\<rparr>"
      by (simp add: next_day_def)
    with next_month v pos month_length [of "month d" "year d"] show ?thesis
      by (simp add: toordinal_def valid_date_def)
  next
    case next_year
    then have "day d = 31"
      by (simp add: days_in_month_def)
    with next_year have nd: "next_day d = \<lparr>year = Suc (year d), month = 1, day = 1\<rparr>"
      by (simp add: next_day_def days_in_month_def)
    have "toordinal (next_day d) = days_before_year (Suc (year d)) + 1"
      by (simp add: nd toordinal_def days_before_january)
    also have "\<dots> = days_before_year (year d) + (days_before_month (year d) 12 + 31) + 1"
      using year_length [OF v(1)] december_length [of "year d"] by simp
    also have "\<dots> = toordinal d + 1"
      using next_year \<open>day d = 31\<close> by (simp add: toordinal_def)
    finally have "toordinal (next_day d) = toordinal d + 1" .
    moreover have "valid_date (next_day d)"
      by (simp add: nd valid_date_def days_in_month_def)
    ultimately show ?thesis by simp
  qed
qed

lemma add_days_ordinal:
  "valid_date d \<Longrightarrow> toordinal (add_days d n) = toordinal d + int n \<and> valid_date (add_days d n)"
proof (induction n arbitrary: d)
  case 0
  then show ?case by simp
next
  case (Suc n)
  from next_day_ordinal [OF Suc.prems]
  have s: "toordinal (next_day d) = toordinal d + 1" and v: "valid_date (next_day d)"
    by simp_all
  from Suc.IH [OF v] s show ?case by simp
qed

text \<open>The order of dates is the order of their ordinals.\<close>

lemma days_before_month_mono:
  "1 \<le> m \<Longrightarrow> m + k \<le> 12 \<Longrightarrow> days_before_month y m \<le> days_before_month y (m + k)"
proof (induction k)
  case 0
  then show ?case by simp
next
  case (Suc k)
  then have "days_before_month y (Suc (m + k)) =
      days_before_month y (m + k) + int (days_in_month y (m + k))"
    by (intro month_length) simp_all
  with Suc show ?case by simp
qed

lemma day_of_year_bounds:
  assumes "valid_date d"
  shows "1 \<le> days_before_month (year d) (month d) + int (day d)"
    and "days_before_month (year d) (month d) + int (day d) \<le>
         365 + (if is_leap (year d) then 1 else 0)"
proof -
  from assms have v: "1 \<le> month d" "month d \<le> 12" "1 \<le> day d"
    "day d \<le> days_in_month (year d) (month d)"
    by (simp_all add: valid_date_def)
  have "days_before_month (year d) 1 \<le> days_before_month (year d) (1 + (month d - 1))"
    using v by (intro days_before_month_mono) simp_all
  with v have nonneg: "0 \<le> days_before_month (year d) (month d)"
    by (simp add: days_before_january)
  with v show "1 \<le> days_before_month (year d) (month d) + int (day d)"
    by simp
  show "days_before_month (year d) (month d) + int (day d) \<le>
         365 + (if is_leap (year d) then 1 else 0)"
  proof (cases "month d = 12")
    case True
    with v have "day d \<le> 31" by (simp add: days_in_month_def)
    with True december_length [of "year d"] show ?thesis by simp
  next
    case False
    with v have m: "month d \<le> 11" by simp
    have "days_before_month (year d) (month d) + int (day d) \<le>
        days_before_month (year d) (Suc (month d))"
      using v month_length [OF v(1) m, of "year d"] by simp
    also have "\<dots> \<le> days_before_month (year d) (Suc (month d) + (11 - month d))"
      using m by (intro days_before_month_mono) simp_all
    also have "\<dots> = days_before_month (year d) 12"
      using m by simp
    also have "\<dots> \<le> 365 + (if is_leap (year d) then 1 else 0)"
      using december_length [of "year d"] by simp
    finally show ?thesis .
  qed
qed

lemma days_before_year_mono:
  "1 \<le> y \<Longrightarrow> days_before_year (Suc y) \<le> days_before_year (Suc y + k)"
proof (induction k)
  case 0
  then show ?case by simp
next
  case (Suc k)
  then have "days_before_year (Suc (Suc y + k)) =
      days_before_year (Suc y + k) + 365 + (if is_leap (Suc y + k) then 1 else 0)"
    by (intro year_length) simp
  with Suc show ?case by simp
qed

lemma toordinal_less_year:
  assumes "valid_date a" and "valid_date b" and "year a < year b"
  shows "toordinal a < toordinal b"
proof -
  from assms(1) have ya: "1 \<le> year a" by (simp add: valid_date_def)
  have "toordinal a \<le> days_before_year (year a) + (365 + (if is_leap (year a) then 1 else 0))"
    using day_of_year_bounds(2) [OF assms(1)] by (simp add: toordinal_def)
  also have "\<dots> = days_before_year (Suc (year a))"
    using year_length [OF ya] by simp
  also have "\<dots> \<le> days_before_year (Suc (year a) + (year b - Suc (year a)))"
    using ya by (rule days_before_year_mono)
  also have "\<dots> = days_before_year (year b)"
    using assms(3) by simp
  also have "\<dots> < toordinal b"
    using day_of_year_bounds(1) [OF assms(2)] by (simp add: toordinal_def)
  finally show ?thesis .
qed

lemma toordinal_less_month:
  assumes "valid_date a" and "valid_date b" and "year a = year b" and "month a < month b"
  shows "toordinal a < toordinal b"
proof -
  from assms(1) have va: "1 \<le> month a" "day a \<le> days_in_month (year a) (month a)"
    by (simp_all add: valid_date_def)
  from assms(2) have vb: "month b \<le> 12" "1 \<le> day b"
    by (simp_all add: valid_date_def)
  from assms(4) vb have m: "month a \<le> 11" by simp
  have "days_before_month (year a) (month a) + int (day a) \<le>
      days_before_month (year a) (Suc (month a))"
    using va month_length [OF va(1) m, of "year a"] by simp
  also have "\<dots> \<le> days_before_month (year a) (Suc (month a) + (month b - Suc (month a)))"
    using assms(4) vb by (intro days_before_month_mono) simp_all
  also have "\<dots> = days_before_month (year a) (month b)"
    using assms(4) by simp
  also have "\<dots> < days_before_month (year a) (month b) + int (day b)"
    using vb by simp
  finally show ?thesis
    using assms(3) by (simp add: toordinal_def)
qed

lemma date_le_ordinal:
  assumes "valid_date a" and "valid_date b"
  shows "date_le a b \<longleftrightarrow> toordinal a \<le> toordinal b"
proof -
  consider (lt_year) "year a < year b" | (gt_year) "year b < year a"
    | (lt_month) "year a = year b" "month a < month b"
    | (gt_month) "year a = year b" "month b < month a"
    | (same_month) "year a = year b" "month a = month b"
    by linarith
  then show ?thesis
  proof cases
    case lt_year
    with assms toordinal_less_year [of a b] show ?thesis
      by (simp add: date_le_def)
  next
    case gt_year
    with assms toordinal_less_year [of b a] show ?thesis
      by (simp add: date_le_def)
  next
    case lt_month
    with assms toordinal_less_month [of a b] show ?thesis
      by (simp add: date_le_def)
  next
    case gt_month
    with assms toordinal_less_month [of b a] show ?thesis
      by (simp add: date_le_def)
  next
    case same_month
    then show ?thesis
      by (simp add: date_le_def toordinal_def)
  qed
qed

lemma days_before_year_le:
  assumes "1 \<le> y" and "Suc y \<le> y'"
  shows "days_before_year (Suc y) \<le> days_before_year y'"
proof -
  from assms(2) have "Suc y + (y' - Suc y) = y'" by simp
  with days_before_year_mono [OF assms(1), of "y' - Suc y"] show ?thesis by simp
qed

lemma toordinal_year_lower:
  assumes "valid_date a" and "valid_date b" and "toordinal a \<le> toordinal b"
  shows "year a \<le> year b"
proof (rule ccontr)
  assume "\<not> year a \<le> year b"
  then have "year b < year a" by simp
  with assms have "toordinal b < toordinal a"
    using toordinal_less_year by blast
  with assms(3) show False by simp
qed

lemma window_year:
  assumes t: "valid_date t" and b: "valid_date b"
    and lo: "toordinal t \<le> toordinal b" and hi: "toordinal b \<le> toordinal t + 7"
  shows "year b = year t \<or>
         (year b = year t + 1 \<and> month t = 12 \<and> 25 \<le> day t \<and> month b = 1 \<and> day b \<le> 7)"
proof (cases "year b = year t")
  case True
  then show ?thesis by simp
next
  case False
  with toordinal_year_lower [OF t b lo] have lt: "year t < year b" by simp
  from t have yt: "1 \<le> year t" by (simp add: valid_date_def)
  let ?len = "365 + (if is_leap (year t) then 1 else 0) :: int"
  have next_year: "days_before_year (Suc (year t)) = days_before_year (year t) + ?len"
    using year_length [OF yt] by simp
  have start_b: "days_before_year (Suc (year t)) \<le> days_before_year (year b)"
    using yt lt by (intro days_before_year_le) simp_all
  have doy_t: "days_before_month (year t) (month t) + int (day t) \<le> ?len"
    using day_of_year_bounds(2) [OF t] by simp
  have doy_b: "1 \<le> days_before_month (year b) (month b) + int (day b)"
    using day_of_year_bounds(1) [OF b] by simp
  have year_b: "year b = year t + 1"
  proof (rule ccontr)
    assume "year b \<noteq> year t + 1"
    with lt have far: "Suc (year t) < year b" by simp
    have "days_before_year (Suc (Suc (year t))) \<le> days_before_year (year b)"
      using far by (intro days_before_year_le) simp_all
    moreover have "days_before_year (Suc (Suc (year t))) \<ge> days_before_year (Suc (year t)) + 365"
      using year_length [of "Suc (year t)"] by simp
    ultimately show False
      using hi doy_t doy_b next_year by (simp add: toordinal_def)
  qed
  then have start_eq: "days_before_year (year b) = days_before_year (year t) + ?len"
    using next_year by simp
  from t have vt: "1 \<le> month t" "month t \<le> 12" "1 \<le> day t"
    "day t \<le> days_in_month (year t) (month t)"
    by (simp_all add: valid_date_def)
  from b have vb: "1 \<le> month b" "month b \<le> 12" "1 \<le> day b"
    by (simp_all add: valid_date_def)
  have late: "?len \<le> days_before_month (year t) (month t) + int (day t) + 6"
    using hi doy_b start_eq by (simp add: toordinal_def)
  have early: "days_before_month (year b) (month b) + int (day b) \<le> 7"
    using hi doy_t start_eq by (simp add: toordinal_def)
  have december: "month t = 12"
  proof (rule ccontr)
    assume "month t \<noteq> 12"
    with vt have m: "month t \<le> 11" by simp
    have "days_before_month (year t) (month t) + int (day t) \<le>
        days_before_month (year t) (Suc (month t))"
      using vt month_length [OF vt(1) m, of "year t"] by simp
    also have "\<dots> \<le> days_before_month (year t) (Suc (month t) + (11 - month t))"
      using m by (intro days_before_month_mono) simp_all
    also have "\<dots> = days_before_month (year t) 12"
      using m by simp
    finally show False
      using late december_length [of "year t"] by simp
  qed
  with late december_length [of "year t"] have day_t: "25 \<le> day t"
    by simp
  have january: "month b = 1"
  proof (rule ccontr)
    assume "month b \<noteq> 1"
    with vb have two: "2 \<le> month b" by simp
    have feb: "days_before_month (year b) 2 = 31"
      by (simp add: days_before_month_def)
    from two have m: "2 + (month b - 2) = month b" by simp
    have "days_before_month (year b) 2 \<le> days_before_month (year b) (2 + (month b - 2))"
      using vb two by (intro days_before_month_mono) simp_all
    then have "31 \<le> days_before_month (year b) (month b)"
      unfolding m feb .
    with early vb show False by simp
  qed
  have jan: "days_before_month (year b) 1 = 0"
    by (simp add: days_before_month_def)
  from early have "day b \<le> 7"
    unfolding january jan by simp
  with year_b december day_t january show ?thesis by simp
qed

text \<open>
  C10. \<open>get_upcoming_birthdays\<close> compares the stored birthday with its year: for a
  date \<open>today\<close> and birthdays that are dates, it returns exactly the user's contacts
  whose birthday is no earlier than today and no later than seven days after today,
  counted in days of the calendar. The year of a returned birthday is therefore the
  current year, or the next year when today is one of 25 to 31 December and the
  birthday one of 1 to 7 January; a birthday of any other year is never returned,
  whatever its month and day.
\<close>

theorem upcoming_birthdays_compare_year:
  assumes "valid_date today" and "\<forall>c \<in> set (contacts d). valid_date (birthday c)"
  shows "get_upcoming_birthdays today d usr =
           filter (\<lambda>c. owned_by usr c \<and> toordinal today \<le> toordinal (birthday c) \<and>
                       toordinal (birthday c) \<le> toordinal today + 7) (contacts d) \<and>
         (\<forall>c \<in> set (get_upcoming_birthdays today d usr).
            year (birthday c) = year today \<or>
            (year (birthday c) = year today + 1 \<and> month today = 12 \<and> 25 \<le> day today \<and>
             month (birthday c) = 1 \<and> day (birthday c) \<le> 7))"
proof -
  from add_days_ordinal [OF assms(1), of 7]
  have week: "toordinal (add_days today 7) = toordinal today + 7" "valid_date (add_days today 7)"
    by simp_all
  have window: "(date_le today (birthday c) \<and> date_le (birthday c) (add_days today 7)) =
      (toordinal today \<le> toordinal (birthday c) \<and>
       toordinal (birthday c) \<le> toordinal today + 7)" if "c \<in> set (contacts d)" for c
  proof -
    from that assms(2) have "valid_date (birthday c)" by blast
    with assms(1) week show ?thesis
      by (simp add: date_le_ordinal)
  qed
  have "get_upcoming_birthdays today d usr =
      filter (\<lambda>c. owned_by usr c \<and> date_le today (birthday c) \<and>
                  date_le (birthday c) (add_days today 7)) (contacts d)"
    by (simp add: get_upcoming_birthdays_def Let_def)
  also have "\<dots> = filter (\<lambda>c. owned_by usr c \<and> toordinal today \<le> toordinal (birthday c) \<and>
                       toordinal (birthday c) \<le> toordinal today + 7) (contacts d)"
    by (rule filter_cong [OF refl]) (simp add: window)
  finally have eq: "get_upcoming_birthdays today d usr =
      filter (\<lambda>c. owned_by usr c \<and> toordinal today \<le> toordinal (birthday c) \<and>
                       toordinal (birthday c) \<le> toordinal today + 7) (contacts d)" .
  have yr: "year (birthday c) = year today \<or>
            (year (birthday c) = year today + 1 \<and> month today = 12 \<and> 25 \<le> day today \<and>
             month (birthday c) = 1 \<and> day (birthday c) \<le> 7)"
    if "c \<in> set (get_upcoming_birthdays today d usr)" for c
  proof -
    from that eq have c: "c \<in> set (contacts d)"
      "toordinal today \<le> toordinal (birthday c)"
      "toordinal (birthday c) \<le> toordinal today + 7"
      by simp_all
    with assms(2) have "valid_date (birthday c)" by blast
    from window_year [OF assms(1) this c(2) c(3)] show ?thesis .
  qed
  from eq yr show ?thesis by blast
qed

text \<open>
  The theorem at the birthday contacts. On 4 November 2026 the contacts with a birthday
  on 4 and on 11 November 2026 are returned: both ends of the window are in it, 3 and
  12 November are not, nor is 5 November 1985, nor Bob's contact. On 28 November the
  window reaches 5 December, on 28 December it reaches 4 January 2027. The ordinals of
  1 January of year 1 and of 4 November 2026 are those of \<open>date.toordinal\<close>.
\<close>

theorem upcoming_birthdays_compare_year_witness:
  "toordinal \<lparr>year = 1, month = 1, day = 1\<rparr> = 1 \<and>
   toordinal \<lparr>year = 2026, month = 11, day = 4\<rparr> = 739924 \<and>
   get_upcoming_birthdays \<lparr>year = 2026, month = 11, day = 4\<rparr> birthday_db alice =
     [birthday_contacts ! 1, birthday_contacts ! 2] \<and>
   get_upcoming_birthdays \<lparr>year = 2026, month = 11, day = 28\<rparr> birthday_db alice =
     [birthday_contacts ! 6] \<and>
   get_upcoming_birthdays \<lparr>year = 2026, month = 12, day = 28\<rparr> birthday_db alice =
     [birthday_contacts ! 7]"
proof -
  have v: "\<forall>c \<in> set (contacts birthday_db). valid_date (birthday c)"
    by (simp add: birthday_db_def birthday_contacts_def valid_date_def days_in_month_def
        is_leap_def)
  have t1: "valid_date \<lparr>year = 2026, month = 11, day = 4\<rparr>"
    and t2: "valid_date \<lparr>year = 2026, month = 11, day = 28\<rparr>"
    and t3: "valid_date \<lparr>year = 2026, month = 12, day = 28\<rparr>"
    by (simp_all add: valid_date_def days_in_month_def)
  have o1: "toordinal \<lparr>year = 1, month = 1, day = 1\<rparr> = 1"
    by (simp add: toordinal_def days_before_year_def days_before_month_def)
  have o2: "toordinal \<lparr>year = 2026, month = 11, day = 4\<rparr> = 739924"
    by (simp add: toordinal_def days_before_year_def days_before_month_def is_leap_def)
  from upcoming_birthdays_compare_year [OF t1 v, of alice]
  have r1: "get_upcoming_birthdays \<lparr>year = 2026, month = 11, day = 4\<rparr> birthday_db alice =
     [birthday_contacts ! 1, birthday_contacts ! 2]"
    by (simp add: birthday_db_def birthday_contacts_def owned_by_def alice_def toordinal_def
        days_before_year_def days_before_month_def is_leap_def)
  from upcoming_birthdays_compare_year [OF t2 v, of alice]
  have r2: "get_upcoming_birthdays \<lparr>year = 2026, month = 11, day = 28\<rparr> birthday_db alice =
     [birthday_contacts ! 6]"
    by (simp add: birthday_db_def birthday_contacts_def owned_by_def alice_def toordinal_def
        days_before_year_def days_before_month_def is_leap_def)
  from upcoming_birthdays_compare_year [OF t3 v, of alice]
  have r3: "get_upcoming_birthdays \<lparr>year = 2026, month = 12, day = 28\<rparr> birthday_db alice =
     [birthday_contacts ! 7]"
    by (simp add: birthday_db_def birthday_contacts_def owned_by_def alice_def toordinal_def
        days_before_year_def days_before_month_def is_leap_def)
  from o1 o2 r1 r2 r3 show ?thesis
    by (intro conjI)
qed

section \<open>The key constraints are kept\<close>

text \<open>
  The theorems above take the uniqueness of \<open>users.email\<close> and of the primary key of
  \<open>contacts\<close> as given. The operations that write keep both: a new row with a key
  that no row has keeps the keys distinct, signup adds an email only where no row has
  it, and the writes to a user row leave the emails alone.
\<close>

lemma create_contact_keeps_key:
  "distinct (map cid (contacts d)) \<Longrightarrow> new_id \<notin> set (map cid (contacts d)) \<Longrightarrow>
   distinct (map cid (contacts (snd (create_contact new_id body d usr))))"
  by (simp add: create_contact_def Let_def)

lemma signup_keeps_unique_email:
  assumes "distinct (map email (users d))"
  shows "distinct (map email (users (snd (snd (signup svc msg gravatar new_id body bt url d)))))"
proof (cases "create_user gravatar new_id
    (body\<lparr>schema_password := get_password_hash svc (schema_password body)\<rparr>) d")
  case (Inl err)
  with assms show ?thesis
    by (simp add: signup_def Let_def split: sum.splits option.splits)
next
  case (Inr created)
  then have "schema_email body \<notin> set (map email (users d))"
    and "users (snd created) = users d @ [fst created]"
    and "email (fst created) = schema_email body"
    by (auto simp: create_user_def Let_def split: if_splits)
  with assms have "distinct (map email (users (snd created)))"
    by simp
  with assms Inr show ?thesis
    by (cases created) (auto simp: signup_def Let_def split: sum.splits option.splits)
qed

lemma update_token_keeps_emails:
  "map email (users (update_token usr t d)) = map email (users d)"
  by (simp add: update_token_def comp_def)

lemma confirmed_email_keeps_emails:
  "confirmed_email e d = Inr d' \<Longrightarrow> map email (users d') = map email (users d)"
  by (auto simp: confirmed_email_def comp_def split: sum.splits option.splits)

section \<open>The contact routes return what the repository returns\<close>

lemma contact_routes_scoped:
  "get_contacts_route limit offset d usr = Inr cs \<Longrightarrow> c \<in> set cs \<Longrightarrow> owned_by usr c"
  "get_contact_route contact_id d usr = Inr c \<Longrightarrow> owned_by usr c"
  "fst (update_contact_route ubody contact_id d usr) = Inr c \<Longrightarrow> owned_by usr c"
  "fst (delete_contact_route contact_id d usr) = Inr (Some c) \<Longrightarrow> owned_by usr c"
proof -
  show "get_contacts_route limit offset d usr = Inr cs \<Longrightarrow> c \<in> set cs \<Longrightarrow> owned_by usr c"
    by (auto simp: get_contacts_route_def split: if_splits dest: get_contacts_scoped)
  show "get_contact_route contact_id d usr = Inr c \<Longrightarrow> owned_by usr c"
    by (auto simp: get_contact_route_def split: sum.splits option.splits dest: get_contact_scoped)
  show "fst (update_contact_route ubody contact_id d usr) = Inr c \<Longrightarrow> owned_by usr c"
  proof -
    assume a: "fst (update_contact_route ubody contact_id d usr) = Inr c"
    then have "fst (update_contact contact_id ubody d usr) = Inr (Some c)"
      by (auto simp: update_contact_route_def split: if_splits prod.splits sum.splits option.splits)
    then show "owned_by usr c" by (rule update_contact_returns_owned)
  qed
  show "fst (delete_contact_route contact_id d usr) = Inr (Some c) \<Longrightarrow> owned_by usr c"
    by (auto simp: delete_contact_route_def split: if_splits
        dest: delete_contact_returns_owned)
qed

end
